theory Spec2Isabelle
  imports Complex_Main "HOL-Library.AList"
begin

section \<open>The debate engine of \<^verbatim>\<open>ai_engine.py\<close> and \<^verbatim>\<open>ai_engine.working.py\<close>\<close>

text \<open>
  Both scripts define the same two classes, \<^verbatim>\<open>ThoughtAgent\<close> and \<^verbatim>\<open>DebateEngine\<close>.
  They differ in three places only: \<^verbatim>\<open>ai_engine.working.py\<close> guards
  \<^verbatim>\<open>run_debate_cycle\<close> with \<^verbatim>\<open>if len(self.agents) < 2: return\<close>, it ends both
  argument templates with a full stop, and its driver logs to a file.

  Conventions of the embedding:
  \<^item> Python's \<^verbatim>\<open>float\<close> is idealised as \<open>real\<close>; the thresholds and clamps of the
    code are comparisons, \<^verbatim>\<open>min\<close> and \<^verbatim>\<open>max\<close>.
  \<^item> The random source is an input. A call \<^verbatim>\<open>randbelow(n)\<close> of the library is
    \<open>r mod n\<close> for a raw natural number \<open>r\<close> supplied by the caller, so every
    raw number gives a legal draw and every legal draw is given by some raw number.
  \<^item> \<^verbatim>\<open>uuid.uuid4()\<close> is an input as well: the \<open>k\<close>-th identifier handed out.
  \<^item> The sentence-embedding model is a parameter: \<open>encode\<close> maps a string to a
    vector of some type \<open>'v\<close>, \<open>cos_sim\<close> maps two vectors to a number.
  \<^item> An agent is mutated through a reference into \<^verbatim>\<open>self.agents\<close>; the list holds
    eight separate objects, so a reference is a position of the list.
  \<^item> Exceptions are values of type \<open>error\<close>, returned as \<open>Inl\<close>.
\<close>

subsection \<open>Errors and random draws\<close>

text \<open>\<^verbatim>\<open>ModelLoadError\<close> stands for whatever \<^verbatim>\<open>SentenceTransformer(...)\<close> raises when
  the pretrained model cannot be loaded.\<close>

datatype error = ValueError | IndexError | ModelLoadError

text \<open>\<^verbatim>\<open>random.choice(seq)\<close> is \<^verbatim>\<open>seq[randbelow(len(seq))]\<close> and raises
  \<^verbatim>\<open>IndexError\<close> on an empty sequence.\<close>

definition choice :: "'a list \<Rightarrow> nat \<Rightarrow> error + 'a" where
  "choice seq r = (if seq = [] then Inl IndexError else Inr (seq ! (r mod length seq)))"

text \<open>\<^verbatim>\<open>random.sample(population, 2)\<close> raises \<^verbatim>\<open>ValueError\<close> when the population
  has fewer than two elements. Otherwise (for a population of at most 21 elements, as
  here) it copies the population to a pool, takes
  \<^verbatim>\<open>pool[j1]\<close> with \<^verbatim>\<open>j1 = randbelow(n)\<close>, moves the last element of the pool to
  position \<^verbatim>\<open>j1\<close>, and takes \<^verbatim>\<open>pool[j2]\<close> with \<^verbatim>\<open>j2 = randbelow(n - 1)\<close>. The
  result is given as the two positions of the population.\<close>

definition sample2 :: "'a list \<Rightarrow> nat \<Rightarrow> nat \<Rightarrow> error + (nat \<times> nat)" where
  "sample2 population r1 r2 =
     (let n = length population in
      if n < 2 then Inl ValueError
      else let j1 = r1 mod n; j2 = r2 mod (n - 1)
           in Inr (j1, if j2 = j1 then n - 1 else j2))"

text \<open>\<^verbatim>\<open>random.uniform(a, b)\<close> is \<^verbatim>\<open>a + (b - a) * random()\<close>, where
  \<^verbatim>\<open>random()\<close> lies in \<open>[0, 1)\<close>.\<close>

definition uniform :: "real \<Rightarrow> real \<Rightarrow> real \<Rightarrow> real" where
  "uniform a b u = a + (b - a) * u"

text \<open>The raw random numbers one debate cycle consumes, in the order of the calls.\<close>

record draws =
  sample_r1 :: nat
  sample_r2 :: nat
  topic_r :: nat
  stance1_r :: nat
  stance2_r :: nat

subsection \<open>Agents\<close>

record ThoughtAgent =
  agent_id :: string
  role :: string
  beliefs :: "string list"
  adaptability :: real

definition ThoughtAgent_init :: "string \<Rightarrow> real \<Rightarrow> string \<Rightarrow> ThoughtAgent" where
  "ThoughtAgent_init uid u r =
     \<lparr>agent_id = uid, role = r, beliefs = [], adaptability = uniform 0.3 0.9 u\<rparr>"

subsection \<open>The knowledge graph\<close>

text \<open>\<^verbatim>\<open>nx.Graph()\<close> is an undirected graph without parallel edges. An edge is keyed by
  the set of its two end points, so \<open>(u, v)\<close> and \<open>(v, u)\<close> are one edge and a
  self-loop is keyed by a singleton. \<^verbatim>\<open>add_edge(u, v, weight=w)\<close> adds both end points
  to the nodes, and either adds the edge or replaces the weight of the edge that is
  there.\<close>

record KnowledgeGraph =
  nodes :: "string list"
  edges :: "(string set \<times> real) list"

definition empty_graph :: KnowledgeGraph where
  "empty_graph = \<lparr>nodes = [], edges = []\<rparr>"

definition add_node :: "string \<Rightarrow> string list \<Rightarrow> string list" where
  "add_node n ns = (if n \<in> set ns then ns else ns @ [n])"

definition add_edge :: "string \<Rightarrow> string \<Rightarrow> real \<Rightarrow> KnowledgeGraph \<Rightarrow> KnowledgeGraph" where
  "add_edge u v w g =
     \<lparr>nodes = add_node v (add_node u (nodes g)),
      edges = AList.update {u, v} w (edges g)\<rparr>"

definition number_of_edges :: "KnowledgeGraph \<Rightarrow> nat" where
  "number_of_edges g = length (edges g)"

definition edge_weight :: "KnowledgeGraph \<Rightarrow> string \<Rightarrow> string \<Rightarrow> real option" where
  "edge_weight g u v = map_of (edges g) {u, v}"

definition has_edge :: "KnowledgeGraph \<Rightarrow> string \<Rightarrow> string \<Rightarrow> bool" where
  "has_edge g u v = ({u, v} \<in> fst ` set (edges g))"

subsection \<open>The engine\<close>

record DebateEngine =
  agents :: "ThoughtAgent list"
  knowledge_graph :: KnowledgeGraph
  debate_history :: "(string \<times> string) list"

definition roles :: "string list" where
  "roles = [''Rationalist'', ''Chaotic'', ''Utopian'', ''Dystopian'',
            ''Empiricist'', ''Surrealist'', ''Nihilist'', ''Transhumanist'']"

definition topics :: "string list" where
  "topics = [''consciousness'', ''free will'', ''AI ethics'', ''existential risk'',
             ''simulation theory'', ''post-humanism'', ''meaning of life'']"

definition stances1 :: "string list" where
  "stances1 = [''fundamental'', ''illusory'', ''dangerous'']"

definition stances2 :: "string list" where
  "stances2 = [''emerging'', ''irrelevant'', ''divine'']"

text \<open>The three fields that \<^verbatim>\<open>DebateEngine.__init__\<close> sets before it loads the model:
  the list comprehension builds the agents in the order of the roles; the \<open>k\<close>-th
  one takes the \<open>k\<close>-th identifier and the \<open>k\<close>-th random number.\<close>

definition DebateEngine_init :: "(nat \<Rightarrow> string) \<Rightarrow> (nat \<Rightarrow> real) \<Rightarrow> DebateEngine" where
  "DebateEngine_init uuid4 rnd =
     \<lparr>agents = map (\<lambda>(k, r). ThoughtAgent_init (uuid4 k) (rnd k) r) (enumerate 0 roles),
      knowledge_graph = empty_graph,
      debate_history = []\<rparr>"


text \<open>The two source files.\<close>

datatype variant = AiEngine | AiEngineWorking

text \<open>Both argument templates of \<^verbatim>\<open>ai_engine.working.py\<close> end with a full stop,
  those of \<^verbatim>\<open>ai_engine.py\<close> do not.\<close>

definition template_end :: "variant \<Rightarrow> string" where
  "template_end v = (case v of AiEngine \<Rightarrow> [] | AiEngineWorking \<Rightarrow> ''.'')"

text \<open>The body of \<^verbatim>\<open>run_debate_cycle\<close> from \<^verbatim>\<open>random.sample\<close> on, the same in
  both files up to the end of the two templates.\<close>

definition debate_cycle ::
  "variant \<Rightarrow> (string \<Rightarrow> 'v) \<Rightarrow> ('v \<Rightarrow> 'v \<Rightarrow> real) \<Rightarrow> draws \<Rightarrow> DebateEngine \<Rightarrow> error + DebateEngine"
where
  "debate_cycle v encode cos_sim d s =
     (case sample2 (agents s) (sample_r1 d) (sample_r2 d) of
        Inl e \<Rightarrow> Inl e
      | Inr (i1, i2) \<Rightarrow>
     (case choice topics (topic_r d) of
        Inl e \<Rightarrow> Inl e
      | Inr topic \<Rightarrow>
     (case choice stances1 (stance1_r d) of
        Inl e \<Rightarrow> Inl e
      | Inr st1 \<Rightarrow>
     (case choice stances2 (stance2_r d) of
        Inl e \<Rightarrow> Inl e
      | Inr st2 \<Rightarrow>
        let a1 = agents s ! i1;
            a2 = agents s ! i2;
            arg1 = role a1 @ '' argues: '' @ topic @ '' is '' @ st1 @ template_end v;
            arg2 = role a2 @ '' counters: '' @ topic @ '' is '' @ st2 @ template_end v;
            emb1 = encode arg1;
            emb2 = encode arg2;
            similarity = cos_sim emb1 emb2;
            g = add_edge arg1 arg2 similarity (knowledge_graph s);
            ags = (if similarity > 0.7
                   then (agents s)[i1 := a1\<lparr>beliefs := beliefs a1 @ [arg2],
                                              adaptability := min 1.0 (adaptability a1 + 0.1)\<rparr>]
                   else (agents s)[i2 := a2\<lparr>beliefs := beliefs a2 @ [arg1],
                                              adaptability := max 0.1 (adaptability a2 - 0.1)\<rparr>])
        in Inr (s\<lparr>agents := ags, knowledge_graph := g,
                  debate_history := debate_history s @ [(arg1, arg2)]\<rparr>)))))"

text \<open>\<^verbatim>\<open>run_debate_cycle\<close>: \<^verbatim>\<open>ai_engine.py\<close> starts with \<^verbatim>\<open>random.sample\<close>,
  \<^verbatim>\<open>ai_engine.working.py\<close> returns at once when there are fewer than two agents.\<close>

definition run_debate_cycle ::
  "variant \<Rightarrow> (string \<Rightarrow> 'v) \<Rightarrow> ('v \<Rightarrow> 'v \<Rightarrow> real) \<Rightarrow> draws \<Rightarrow> DebateEngine \<Rightarrow> error + DebateEngine"
where
  "run_debate_cycle v encode cos_sim d s =
     (case v of
        AiEngine \<Rightarrow> debate_cycle v encode cos_sim d s
      | AiEngineWorking \<Rightarrow>
          if length (agents s) < 2 then Inr s
          else debate_cycle v encode cos_sim d s)"

text \<open>The driver loop calls the cycle until the time budget is spent; the number of
  iterations is decided by the clock, so a run is a finite list of draws, one per
  iteration. An exception ends the run.\<close>

fun run_cycles ::
  "(draws \<Rightarrow> DebateEngine \<Rightarrow> error + DebateEngine) \<Rightarrow> draws list \<Rightarrow> DebateEngine \<Rightarrow> error + DebateEngine"
where
  "run_cycles cycle [] s = Inr s"
| "run_cycles cycle (d # ds) s =
     (case cycle d s of Inl e \<Rightarrow> Inl e | Inr s' \<Rightarrow> run_cycles cycle ds s')"

subsection \<open>The history file\<close>

definition newline :: char where
  "newline = CHR 0x0A"

text \<open>The final loop of both scripts: \<^verbatim>\<open>f.write(f"{entry[0]}\n{entry[1]}\n\n")\<close> for each
  entry, in order.\<close>

fun dump_history :: "(string \<times> string) list \<Rightarrow> string" where
  "dump_history [] = []"
| "dump_history (entry # es) =
     fst entry @ [newline] @ snd entry @ [newline, newline] @ dump_history es"

text \<open>Modelled from the spec: the reader of the history file, which is in neither
  script. The spec gives the format: the file is split into lines; a blank line ends a
  block; a block is two non-blank lines, the first and the second argument of one
  entry. A block of any other size is a parse error.\<close>

fun split_lines_from :: "string \<Rightarrow> string \<Rightarrow> string list" where
  "split_lines_from cur [] = [cur]"
| "split_lines_from cur (c # cs) =
     (if c = newline then cur # split_lines_from [] cs
      else split_lines_from (cur @ [c]) cs)"

definition split_lines :: "string \<Rightarrow> string list" where
  "split_lines txt = split_lines_from [] txt"

fun blocks_from :: "string list \<Rightarrow> string list \<Rightarrow> string list list" where
  "blocks_from cur [] = (if cur = [] then [] else [cur])"
| "blocks_from cur (l # ls) =
     (if l = [] then (if cur = [] then blocks_from [] ls else cur # blocks_from [] ls)
      else blocks_from (cur @ [l]) ls)"

fun block_entry :: "string list \<Rightarrow> (string \<times> string) option" where
  "block_entry [a, b] = Some (a, b)"
| "block_entry _ = None"

definition parse_history :: "string \<Rightarrow> (string \<times> string) list option" where
  "parse_history txt = those (map block_entry (blocks_from [] (split_lines txt)))"

text \<open>A line that the format can carry: not blank and without a line break.\<close>

definition line_ok :: "string \<Rightarrow> bool" where
  "line_ok l = (l \<noteq> [] \<and> newline \<notin> set l)"

subsection \<open>A concrete run\<close>

text \<open>Identifiers \<open>u\<close>, \<open>uu\<close>, \<open>uuu\<close>, ...; every \<^verbatim>\<open>random()\<close> is 0, so every agent
  starts with adaptability 0.3; every raw draw of a cycle is 0, which samples the first
  and the last agent, the first topic and the first stance of each side; the embedding
  is the identity and the similarity a constant.\<close>

definition example_uuid4 :: "nat \<Rightarrow> string" where
  "example_uuid4 k = replicate (Suc k) CHR ''u''"

definition example_rnd :: "nat \<Rightarrow> real" where
  "example_rnd k = 0"

definition example_draws :: draws where
  "example_draws = \<lparr>sample_r1 = 0, sample_r2 = 0, topic_r = 0, stance1_r = 0, stance2_r = 0\<rparr>"

definition example_encode :: "string \<Rightarrow> string" where
  "example_encode x = x"

definition constant_similarity :: "real \<Rightarrow> string \<Rightarrow> string \<Rightarrow> real" where
  "constant_similarity c x y = c"

definition example_engine :: DebateEngine where
  "example_engine = DebateEngine_init example_uuid4 example_rnd"


text \<open>The same engine with its first agent only.\<close>

definition lone_engine :: DebateEngine where
  "lone_engine = example_engine\<lparr>agents := take 1 (agents example_engine)\<rparr>"

text \<open>The engine after two cycles with similarity 0.5: the last agent has adopted two
  arguments and its adaptability has gone from 0.3 over 0.2 to 0.1.\<close>

definition clamped_engine :: DebateEngine where
  "clamped_engine =
     \<lparr>agents = (agents example_engine)
        [7 := \<lparr>agent_id = ''uuuuuuuu'', role = ''Transhumanist'',
               beliefs = [''Rationalist argues: consciousness is fundamental'',
                          ''Rationalist argues: consciousness is fundamental''],
               adaptability = 0.1\<rparr>],
      knowledge_graph =
        \<lparr>nodes = [''Rationalist argues: consciousness is fundamental'',
                  ''Transhumanist counters: consciousness is emerging''],
         edges = [({''Rationalist argues: consciousness is fundamental'',
                    ''Transhumanist counters: consciousness is emerging''}, 0.5)]\<rparr>,
      debate_history =
        [(''Rationalist argues: consciousness is fundamental'',
          ''Transhumanist counters: consciousness is emerging''),
         (''Rationalist argues: consciousness is fundamental'',
          ''Transhumanist counters: consciousness is emerging'')]\<rparr>"

section \<open>Basic facts\<close>

subsection \<open>Sampling\<close>

lemma sample2_Inr:
  assumes "sample2 xs r1 r2 = Inr (i, j)"
  shows "i < length xs \<and> j < length xs \<and> i \<noteq> j"
proof -
  define n where "n = length xs"
  define a where "a = r1 mod n"
  define b where "b = r2 mod (n - 1)"
  from assms have n: "2 \<le> n"
    by (auto simp: sample2_def Let_def n_def split: if_splits)
  then have "0 < n" and "0 < n - 1"
    by linarith+
  then have a: "a < n" and b: "b < n - 1"
    by (simp_all only: a_def b_def mod_less_divisor)
  from assms n have "i = a" and "j = (if b = a then n - 1 else b)"
    by (auto simp: sample2_def Let_def n_def a_def b_def split: if_splits)
  with a b n have "i < n \<and> j < n \<and> i \<noteq> j"
    by (cases "b = a") auto
  then show ?thesis
    by (simp add: n_def)
qed

lemma sample2_Inl: "sample2 xs r1 r2 = Inl e \<longleftrightarrow> length xs < 2 \<and> e = ValueError"
  by (auto simp: sample2_def Let_def)

lemma sample2_length: "length xs = length ys \<Longrightarrow> sample2 xs r1 r2 = sample2 ys r1 r2"
  by (simp add: sample2_def)

lemma sample2_total:
  "2 \<le> length xs \<Longrightarrow> \<exists>i j. sample2 xs r1 r2 = Inr (i, j)"
  by (simp add: sample2_def Let_def)

text \<open>Every ordered pair of two different positions is sampled by some raw numbers.\<close>

lemma sample2_onto:
  assumes "i < length xs" "j < length xs" "i \<noteq> j"
  shows "sample2 xs i (if j = length xs - 1 then i else j) = Inr (i, j)"
  using assms by (auto simp: sample2_def Let_def)

lemma choice_mem: "choice seq r = Inr x \<Longrightarrow> x \<in> set seq"
  by (auto simp: choice_def split: if_splits)

lemma choice_topics: "\<exists>t. choice topics r = Inr t"
  by (simp add: choice_def topics_def)

lemma choice_stances1: "\<exists>t. choice stances1 r = Inr t"
  by (simp add: choice_def stances1_def)

lemma choice_stances2: "\<exists>t. choice stances2 r = Inr t"
  by (simp add: choice_def stances2_def)

subsection \<open>One cycle\<close>

text \<open>What a completed cycle has done, read off the definition: the names are those of
  the local variables of \<^verbatim>\<open>run_debate_cycle\<close>.\<close>

lemma debate_cycle_InrE:
  assumes "debate_cycle v enc cs d s = Inr s'"
  obtains i1 i2 topic st1 st2 arg1 arg2 sim where
    "sample2 (agents s) (sample_r1 d) (sample_r2 d) = Inr (i1, i2)"
    "choice topics (topic_r d) = Inr topic"
    "choice stances1 (stance1_r d) = Inr st1"
    "choice stances2 (stance2_r d) = Inr st2"
    "arg1 = role (agents s ! i1) @ '' argues: '' @ topic @ '' is '' @ st1 @ template_end v"
    "arg2 = role (agents s ! i2) @ '' counters: '' @ topic @ '' is '' @ st2 @ template_end v"
    "sim = cs (enc arg1) (enc arg2)"
    "debate_history s' = debate_history s @ [(arg1, arg2)]"
    "knowledge_graph s' = add_edge arg1 arg2 sim (knowledge_graph s)"
    "agents s' =
       (if sim > 0.7
        then (agents s)[i1 := (agents s ! i1)\<lparr>beliefs := beliefs (agents s ! i1) @ [arg2],
               adaptability := min 1.0 (adaptability (agents s ! i1) + 0.1)\<rparr>]
        else (agents s)[i2 := (agents s ! i2)\<lparr>beliefs := beliefs (agents s ! i2) @ [arg1],
               adaptability := max 0.1 (adaptability (agents s ! i2) - 0.1)\<rparr>])"
  using assms unfolding debate_cycle_def Let_def
  by (auto split: sum.splits prod.splits)

lemma debate_cycle_total:
  assumes "2 \<le> length (agents s)"
  shows "\<exists>s'. debate_cycle v enc cs d s = Inr s'"
proof -
  obtain i j where "sample2 (agents s) (sample_r1 d) (sample_r2 d) = Inr (i, j)"
    using sample2_total [OF assms] by blast
  moreover obtain t where "choice topics (topic_r d) = Inr t"
    using choice_topics by blast
  moreover obtain a where "choice stances1 (stance1_r d) = Inr a"
    using choice_stances1 by blast
  moreover obtain b where "choice stances2 (stance2_r d) = Inr b"
    using choice_stances2 by blast
  ultimately show ?thesis
    by (simp add: debate_cycle_def Let_def)
qed

lemma debate_cycle_too_few:
  "length (agents s) < 2 \<Longrightarrow> debate_cycle v enc cs d s = Inl ValueError"
  by (simp add: debate_cycle_def sample2_def)

lemma run_debate_cycle_Inr:
  assumes "run_debate_cycle v enc cs d s = Inr s'"
  shows "debate_cycle v enc cs d s = Inr s' \<or> (v = AiEngineWorking \<and> length (agents s) < 2 \<and> s' = s)"
  using assms by (auto simp: run_debate_cycle_def split: variant.splits if_splits)

lemma run_debate_cycle_sampled:
  assumes "run_debate_cycle v enc cs d s = Inr s'"
    and "sample2 (agents s) r1 r2 = Inr (i1, i2)"
  shows "debate_cycle v enc cs d s = Inr s'"
  using assms sample2_Inr [OF assms(2)]
  by (auto simp: run_debate_cycle_def split: variant.splits if_splits)

lemma run_cycles_invariant:
  assumes "run_cycles cycle ds s = Inr s'"
    and "P s"
    and "\<And>d s s'. P s \<Longrightarrow> cycle d s = Inr s' \<Longrightarrow> P s'"
  shows "P s'"
  using assms(1,2)
proof (induction ds arbitrary: s)
  case Nil
  then show ?case by simp
next
  case (Cons d ds)
  then show ?case
    by (auto split: sum.splits intro: assms(3))
qed

subsection \<open>Runs\<close>

lemma run_cycles_total:
  assumes "P s"
    and "\<And>d s. P s \<Longrightarrow> \<exists>s'. cycle d s = Inr s' \<and> P s'"
  shows "\<exists>s'. run_cycles cycle ds s = Inr s' \<and> P s'"
  using assms(1)
proof (induction ds arbitrary: s)
  case Nil
  then show ?case by simp
next
  case (Cons d ds)
  from assms(2) [OF Cons.prems] obtain s1 where "cycle d s = Inr s1" and "P s1"
    by blast
  with Cons.IH [of s1] show ?case
    by simp
qed

lemma run_debate_cycle_total:
  assumes "2 \<le> length (agents s)"
  shows "\<exists>s'. run_debate_cycle v enc cs d s = Inr s'"
  using debate_cycle_total [OF assms, of v enc cs d]
  by (cases v) (simp_all add: run_debate_cycle_def)

lemma debate_cycle_length:
  assumes "debate_cycle v enc cs d s = Inr s'"
  shows "length (agents s') = length (agents s)"
  using assms by (rule debate_cycle_InrE) simp

lemma debate_cycle_roles:
  assumes "debate_cycle v enc cs d s = Inr s'"
  shows "map role (agents s') = map role (agents s)"
  using assms
proof (rule debate_cycle_InrE)
  fix i1 i2 :: nat and arg1 arg2 :: string and sim :: real
  assume "sample2 (agents s) (sample_r1 d) (sample_r2 d) = Inr (i1, i2)"
  then have "i1 < length (agents s)" "i2 < length (agents s)"
    using sample2_Inr by blast+
  moreover assume "agents s' =
       (if sim > 0.7
        then (agents s)[i1 := (agents s ! i1)\<lparr>beliefs := beliefs (agents s ! i1) @ [arg2],
               adaptability := min 1.0 (adaptability (agents s ! i1) + 0.1)\<rparr>]
        else (agents s)[i2 := (agents s ! i2)\<lparr>beliefs := beliefs (agents s ! i2) @ [arg1],
               adaptability := max 0.1 (adaptability (agents s ! i2) - 0.1)\<rparr>])"
  ultimately show ?thesis
    by (simp add: map_update list_update_same_conv)
qed

lemma run_debate_cycle_length:
  assumes "run_debate_cycle v enc cs d s = Inr s'"
  shows "length (agents s') = length (agents s)"
  using run_debate_cycle_Inr [OF assms] debate_cycle_length by blast

lemma run_debate_cycle_roles:
  assumes "run_debate_cycle v enc cs d s = Inr s'"
  shows "map role (agents s') = map role (agents s)"
  using run_debate_cycle_Inr [OF assms] debate_cycle_roles by blast

lemma init_length: "length (agents (DebateEngine_init uuid4 rnd)) = 8"
  by (simp add: DebateEngine_init_def roles_def)

lemma init_roles: "map role (agents (DebateEngine_init uuid4 rnd)) = roles"
  by (simp add: DebateEngine_init_def roles_def ThoughtAgent_init_def)

lemma run_from_init:
  "\<exists>s. run_cycles (run_debate_cycle v enc cs) ds (DebateEngine_init uuid4 rnd) = Inr s \<and>
       length (agents s) = 8 \<and> map role (agents s) = roles"
proof (rule run_cycles_total
    [where P = "\<lambda>s. length (agents s) = 8 \<and> map role (agents s) = roles"])
  show "length (agents (DebateEngine_init uuid4 rnd)) = 8 \<and>
        map role (agents (DebateEngine_init uuid4 rnd)) = roles"
    by (simp add: init_length init_roles)
next
  fix d and s :: DebateEngine
  assume P: "length (agents s) = 8 \<and> map role (agents s) = roles"
  then have "2 \<le> length (agents s)"
    by simp
  then obtain s' where s': "run_debate_cycle v enc cs d s = Inr s'"
    using run_debate_cycle_total by blast
  with P run_debate_cycle_length [OF s'] run_debate_cycle_roles [OF s']
  show "\<exists>s'. run_debate_cycle v enc cs d s = Inr s' \<and>
             length (agents s') = 8 \<and> map role (agents s') = roles"
    by simp
qed

lemma debate_cycle_adaptability:
  assumes "debate_cycle v enc cs d s = Inr s'"
    and "\<forall>a\<in>set (agents s). 0.1 \<le> adaptability a \<and> adaptability a \<le> 1.0"
  shows "\<forall>a\<in>set (agents s'). 0.1 \<le> adaptability a \<and> adaptability a \<le> 1.0"
  using assms(1)
proof (rule debate_cycle_InrE)
  fix i1 i2 :: nat and arg1 arg2 :: string and sim :: real
  assume "sample2 (agents s) (sample_r1 d) (sample_r2 d) = Inr (i1, i2)"
  then have "i1 < length (agents s)" "i2 < length (agents s)"
    using sample2_Inr by blast+
  then have old: "0.1 \<le> adaptability (agents s ! i1)" "adaptability (agents s ! i2) \<le> 1.0"
    using assms(2) by (simp_all add: nth_mem)
  assume ags: "agents s' =
       (if sim > 0.7
        then (agents s)[i1 := (agents s ! i1)\<lparr>beliefs := beliefs (agents s ! i1) @ [arg2],
               adaptability := min 1.0 (adaptability (agents s ! i1) + 0.1)\<rparr>]
        else (agents s)[i2 := (agents s ! i2)\<lparr>beliefs := beliefs (agents s ! i2) @ [arg1],
               adaptability := max 0.1 (adaptability (agents s ! i2) - 0.1)\<rparr>])"
  show ?thesis
  proof
    fix a
    assume "a \<in> set (agents s')"
    with ags consider "a \<in> set (agents s)"
      | "a = (agents s ! i1)\<lparr>beliefs := beliefs (agents s ! i1) @ [arg2],
               adaptability := min 1.0 (adaptability (agents s ! i1) + 0.1)\<rparr>"
      | "a = (agents s ! i2)\<lparr>beliefs := beliefs (agents s ! i2) @ [arg1],
               adaptability := max 0.1 (adaptability (agents s ! i2) - 0.1)\<rparr>"
      using set_update_subset_insert by (fastforce split: if_splits)
    then show "0.1 \<le> adaptability a \<and> adaptability a \<le> 1.0"
    proof cases
      case 1
      with assms(2) show ?thesis by blast
    next
      case 2
      with old show ?thesis by simp
    next
      case 3
      with old show ?thesis by simp
    qed
  qed
qed

lemma init_adaptability:
  assumes "\<forall>k. 0 \<le> rnd k \<and> rnd k < 1"
  shows "\<forall>a\<in>set (agents (DebateEngine_init uuid4 rnd)). 0.3 \<le> adaptability a \<and> adaptability a \<le> 0.9"
proof
  fix a
  assume "a \<in> set (agents (DebateEngine_init uuid4 rnd))"
  then obtain k r where kr: "(k, r) \<in> set (enumerate 0 roles)"
    and a: "a = ThoughtAgent_init (uuid4 k) (rnd k) r"
    by (auto simp: DebateEngine_init_def)
  from assms have "0 \<le> rnd k" "rnd k < 1"
    by simp_all
  with a show "0.3 \<le> adaptability a \<and> adaptability a \<le> 0.9"
    by (simp add: ThoughtAgent_init_def uniform_def)
qed

subsection \<open>The concrete run\<close>

lemmas example_defs = example_engine_def DebateEngine_init_def ThoughtAgent_init_def
  example_uuid4_def example_rnd_def example_draws_def example_encode_def
  constant_similarity_def roles_def topics_def stances1_def stances2_def uniform_def
  empty_graph_def

lemmas cycle_defs = run_debate_cycle_def debate_cycle_def sample2_def choice_def Let_def
  template_end_def add_edge_def add_node_def

lemma example_engine_eq:
  "example_engine = \<lparr>agents = agents example_engine, knowledge_graph = \<lparr>nodes = [], edges = []\<rparr>,
     debate_history = []\<rparr>"
  by (simp add: example_engine_def DebateEngine_init_def empty_graph_def)

lemmas draw_defs = example_draws_def topics_def stances1_def stances2_def
  constant_similarity_def example_encode_def

lemma example_agents:
  "agents example_engine =
     [\<lparr>agent_id = ''u'', role = ''Rationalist'', beliefs = [], adaptability = 0.3\<rparr>,
      \<lparr>agent_id = ''uu'', role = ''Chaotic'', beliefs = [], adaptability = 0.3\<rparr>,
      \<lparr>agent_id = ''uuu'', role = ''Utopian'', beliefs = [], adaptability = 0.3\<rparr>,
      \<lparr>agent_id = ''uuuu'', role = ''Dystopian'', beliefs = [], adaptability = 0.3\<rparr>,
      \<lparr>agent_id = ''uuuuu'', role = ''Empiricist'', beliefs = [], adaptability = 0.3\<rparr>,
      \<lparr>agent_id = ''uuuuuu'', role = ''Surrealist'', beliefs = [], adaptability = 0.3\<rparr>,
      \<lparr>agent_id = ''uuuuuuu'', role = ''Nihilist'', beliefs = [], adaptability = 0.3\<rparr>,
      \<lparr>agent_id = ''uuuuuuuu'', role = ''Transhumanist'', beliefs = [], adaptability = 0.3\<rparr>]"
  by (simp add: example_defs)

lemma example_sample:
  "sample2 (agents example_engine) (sample_r1 example_draws) (sample_r2 example_draws) = Inr (0, 7)"
  by (simp add: example_agents sample2_def example_draws_def)

lemma example_cycle:
  "run_debate_cycle v example_encode (constant_similarity c) example_draws example_engine =
     Inr (example_engine
       \<lparr>agents :=
          (if c > 0.7
           then (agents example_engine)[0 := \<lparr>agent_id = ''u'', role = ''Rationalist'',
                  beliefs = [''Transhumanist counters: consciousness is emerging'' @ template_end v],
                  adaptability = 0.4\<rparr>]
           else (agents example_engine)[7 := \<lparr>agent_id = ''uuuuuuuu'', role = ''Transhumanist'',
                  beliefs = [''Rationalist argues: consciousness is fundamental'' @ template_end v],
                  adaptability = 0.2\<rparr>]),
        knowledge_graph :=
          \<lparr>nodes = [''Rationalist argues: consciousness is fundamental'' @ template_end v,
                    ''Transhumanist counters: consciousness is emerging'' @ template_end v],
           edges = [({''Rationalist argues: consciousness is fundamental'' @ template_end v,
                      ''Transhumanist counters: consciousness is emerging'' @ template_end v}, c)]\<rparr>,
        debate_history :=
          [(''Rationalist argues: consciousness is fundamental'' @ template_end v,
            ''Transhumanist counters: consciousness is emerging'' @ template_end v)]\<rparr>)"
  apply (cases v)
   apply (simp_all add: cycle_defs example_agents example_draws_def topics_def stances1_def stances2_def constant_similarity_def)
   apply (simp_all add: example_defs)
  done

section \<open>The evolution rule\<close>

text \<open>
  C1. In a completed call of \<^verbatim>\<open>run_debate_cycle\<close> that sampled the agents at
  positions \<open>i1\<close> and \<open>i2\<close> and appended \<open>(arg1, arg2)\<close> to the history, let
  \<open>similarity\<close> be the similarity of the two embeddings. If it is greater than 0.7,
  agent 1 gains \<open>arg2\<close> as its last belief and its adaptability becomes
  \<open>min 1.0 (old + 0.1)\<close>. If it is at most 0.7, agent 2 gains \<open>arg1\<close> and its
  adaptability becomes \<open>max 0.1 (old - 0.1)\<close>. A similarity function that is
  constantly 0.75 takes the first branch, one that is constantly 0.5 the second.
\<close>

theorem evolution_rule:
  assumes "run_debate_cycle v encode cos_sim d s = Inr s'"
    and "sample2 (agents s) (sample_r1 d) (sample_r2 d) = Inr (i1, i2)"
    and "last (debate_history s') = (arg1, arg2)"
    and "similarity = cos_sim (encode arg1) (encode arg2)"
  shows "(similarity > 0.7 \<longrightarrow>
            beliefs (agents s' ! i1) = beliefs (agents s ! i1) @ [arg2] \<and>
            adaptability (agents s' ! i1) = min 1.0 (adaptability (agents s ! i1) + 0.1)) \<and>
         (similarity \<le> 0.7 \<longrightarrow>
            beliefs (agents s' ! i2) = beliefs (agents s ! i2) @ [arg1] \<and>
            adaptability (agents s' ! i2) = max 0.1 (adaptability (agents s ! i2) - 0.1)) \<and>
         ((\<forall>x y. cos_sim x y = 0.75) \<longrightarrow>
            beliefs (agents s' ! i1) = beliefs (agents s ! i1) @ [arg2] \<and>
            adaptability (agents s' ! i1) = min 1.0 (adaptability (agents s ! i1) + 0.1)) \<and>
         ((\<forall>x y. cos_sim x y = 0.5) \<longrightarrow>
            beliefs (agents s' ! i2) = beliefs (agents s ! i2) @ [arg1] \<and>
            adaptability (agents s' ! i2) = max 0.1 (adaptability (agents s ! i2) - 0.1))"
proof -
  from assms(1,2) have c: "debate_cycle v encode cos_sim d s = Inr s'"
    by (rule run_debate_cycle_sampled)
  from sample2_Inr [OF assms(2)] have i: "i1 < length (agents s)" "i2 < length (agents s)"
    by simp_all
  from c show ?thesis
  proof (rule debate_cycle_InrE)
    fix j1 j2 topic st1 st2 a1 a2 sim
    assume "sample2 (agents s) (sample_r1 d) (sample_r2 d) = Inr (j1, j2)"
      and h: "debate_history s' = debate_history s @ [(a1, a2)]"
      and sim: "sim = cos_sim (encode a1) (encode a2)"
      and ags: "agents s' =
       (if sim > 0.7
        then (agents s)[j1 := (agents s ! j1)\<lparr>beliefs := beliefs (agents s ! j1) @ [a2],
               adaptability := min 1.0 (adaptability (agents s ! j1) + 0.1)\<rparr>]
        else (agents s)[j2 := (agents s ! j2)\<lparr>beliefs := beliefs (agents s ! j2) @ [a1],
               adaptability := max 0.1 (adaptability (agents s ! j2) - 0.1)\<rparr>])"
    with assms(2) have j: "j1 = i1" "j2 = i2"
      by simp_all
    from h assms(3) have a: "a1 = arg1" "a2 = arg2"
      by simp_all
    from sim a assms(4) have "sim = similarity"
      by simp
    with ags i j a have main: "(similarity > 0.7 \<longrightarrow>
            beliefs (agents s' ! i1) = beliefs (agents s ! i1) @ [arg2] \<and>
            adaptability (agents s' ! i1) = min 1.0 (adaptability (agents s ! i1) + 0.1)) \<and>
         (similarity \<le> 0.7 \<longrightarrow>
            beliefs (agents s' ! i2) = beliefs (agents s ! i2) @ [arg1] \<and>
            adaptability (agents s' ! i2) = max 0.1 (adaptability (agents s ! i2) - 0.1))"
      by auto
    have "similarity > 0.7" if "\<forall>x y. cos_sim x y = 0.75"
    proof -
      from that have "similarity = 0.75"
        unfolding assms(4) by blast
      then show ?thesis
        by simp
    qed
    moreover have "similarity \<le> 0.7" if "\<forall>x y. cos_sim x y = 0.5"
    proof -
      from that have "similarity = 0.5"
        unfolding assms(4) by blast
      then show ?thesis
        by simp
    qed
    ultimately show ?thesis
      using main by blast
  qed
qed

theorem evolution_rule_witness:
  "\<exists>s'. run_debate_cycle AiEngine example_encode (constant_similarity 0.75) example_draws example_engine = Inr s' \<and>
     sample2 (agents example_engine) (sample_r1 example_draws) (sample_r2 example_draws) = Inr (0, 7) \<and>
     last (debate_history s') = (''Rationalist argues: consciousness is fundamental'',
                                  ''Transhumanist counters: consciousness is emerging'') \<and>
     beliefs (agents s' ! 0) = beliefs (agents example_engine ! 0) @ [''Transhumanist counters: consciousness is emerging''] \<and>
     adaptability (agents s' ! 0) = min 1.0 (adaptability (agents example_engine ! 0) + 0.1)"
proof -
  let ?r = "run_debate_cycle AiEngine example_encode (constant_similarity 0.75) example_draws example_engine"
  obtain s' where s': "?r = Inr s'"
    by (simp add: example_cycle)
  have h: "last (debate_history s') = (''Rationalist argues: consciousness is fundamental'',
                                  ''Transhumanist counters: consciousness is emerging'')"
    using s' by (auto simp: example_cycle template_end_def)
  have "(0.7::real) < constant_similarity 0.75 (example_encode ''Rationalist argues: consciousness is fundamental'')
       (example_encode ''Transhumanist counters: consciousness is emerging'')"
    by (simp add: constant_similarity_def)
  with evolution_rule [OF s' example_sample h refl] s' example_sample h
  show ?thesis
    by simp
qed

section \<open>The bounds of adaptability\<close>

text \<open>
  C3. When every \<^verbatim>\<open>random()\<close> lies in \<open>[0, 1)\<close>, every agent starts with an
  adaptability in \<open>[0.3, 0.9]\<close>, every run of any number of cycles from the initial
  engine completes, and afterwards every agent's adaptability lies in \<open>[0.1, 1.0]\<close>.
\<close>

theorem adaptability_clamped:
  assumes "\<forall>k. 0 \<le> rnd k \<and> rnd k < 1"
  shows "(\<forall>a\<in>set (agents (DebateEngine_init uuid4 rnd)).
            0.3 \<le> adaptability a \<and> adaptability a \<le> 0.9) \<and>
         (\<exists>s. run_cycles (run_debate_cycle v encode cos_sim) ds (DebateEngine_init uuid4 rnd) = Inr s \<and>
              (\<forall>a\<in>set (agents s). 0.1 \<le> adaptability a \<and> adaptability a \<le> 1.0))"
proof -
  let ?P = "\<lambda>s. \<forall>a\<in>set (agents s). 0.1 \<le> adaptability a \<and> adaptability a \<le> 1.0"
  have init: "\<forall>a\<in>set (agents (DebateEngine_init uuid4 rnd)).
            0.3 \<le> adaptability a \<and> adaptability a \<le> 0.9"
    using assms by (rule init_adaptability)
  then have P0: "?P (DebateEngine_init uuid4 rnd)"
    by fastforce
  obtain s where s: "run_cycles (run_debate_cycle v encode cos_sim) ds (DebateEngine_init uuid4 rnd) = Inr s"
    using run_from_init by blast
  have "?P s"
  proof (rule run_cycles_invariant [where P = ?P, OF s P0])
    fix d t t'
    assume "?P t" and "run_debate_cycle v encode cos_sim d t = Inr t'"
    with run_debate_cycle_Inr [of v encode cos_sim d t t'] debate_cycle_adaptability [of v encode cos_sim d t t']
    show "?P t'"
      by blast
  qed
  with init s show ?thesis
    by blast
qed

theorem adaptability_clamped_witness:
  "(\<forall>k. 0 \<le> example_rnd k \<and> example_rnd k < 1) \<and>
   (\<exists>s. run_cycles (run_debate_cycle AiEngine example_encode (constant_similarity 0.5))
           [example_draws] example_engine = Inr s \<and>
        map adaptability (agents s) = [0.3, 0.3, 0.3, 0.3, 0.3, 0.3, 0.3, 0.2])"
proof -
  have h: "\<forall>k. 0 \<le> example_rnd k \<and> example_rnd k < 1"
    by (simp add: example_rnd_def)
  from adaptability_clamped [OF h, of example_uuid4 AiEngine example_encode
      "constant_similarity 0.5" "[example_draws]"]
  have "\<exists>s. run_cycles (run_debate_cycle AiEngine example_encode (constant_similarity 0.5))
           [example_draws] example_engine = Inr s"
    unfolding example_engine_def by blast
  with h show ?thesis
    by (simp add: example_cycle example_agents)
qed

section \<open>Fewer than two agents\<close>

text \<open>
  C5. With fewer than two agents, \<^verbatim>\<open>run_debate_cycle\<close> of \<^verbatim>\<open>ai_engine.working.py\<close>
  returns normally and leaves the whole engine (agents, knowledge graph, history) as it
  was, and \<^verbatim>\<open>run_debate_cycle\<close> of \<^verbatim>\<open>ai_engine.py\<close> raises the \<^verbatim>\<open>ValueError\<close> of
  \<^verbatim>\<open>random.sample\<close>.
\<close>

theorem too_few_agents:
  assumes "length (agents s) < 2"
  shows "run_debate_cycle AiEngineWorking encode cos_sim d s = Inr s \<and>
         run_debate_cycle AiEngine encode cos_sim d s = Inl ValueError"
  using assms by (simp add: run_debate_cycle_def debate_cycle_too_few)

theorem too_few_agents_witness:
  "length (agents lone_engine) < 2 \<and>
   run_debate_cycle AiEngineWorking example_encode (constant_similarity 0.75) example_draws lone_engine
     = Inr lone_engine \<and>
   run_debate_cycle AiEngine example_encode (constant_similarity 0.75) example_draws lone_engine
     = Inl ValueError"
proof -
  have h: "length (agents lone_engine) < 2"
    by (simp add: lone_engine_def)
  from h too_few_agents [OF h] show ?thesis
    by simp
qed

section \<open>One agent is mutated per cycle\<close>

text \<open>
  C2, as the code has it. In a completed cycle that sampled the agents at positions
  \<open>i1\<close> and \<open>i2\<close>, exactly one of the two, \<open>k\<close>, is mutated: its belief sequence
  grows by exactly one entry at the end, its identifier and role stay, and its
  adaptability is set to the clamped value, which is the old value exactly when the old
  value was already at the bound (1.0 for agent 1, 0.1 for agent 2). The agent at every
  other position, sampled or not, is unchanged, and the number of agents stays.
\<close>

theorem one_agent_mutated:
  assumes "run_debate_cycle v encode cos_sim d s = Inr s'"
    and "sample2 (agents s) (sample_r1 d) (sample_r2 d) = Inr (i1, i2)"
  shows "\<exists>k arg. (k = i1 \<or> k = i2) \<and> k < length (agents s) \<and>
           length (agents s') = length (agents s) \<and>
           (\<forall>m. m \<noteq> k \<longrightarrow> agents s' ! m = agents s ! m) \<and>
           agent_id (agents s' ! k) = agent_id (agents s ! k) \<and>
           role (agents s' ! k) = role (agents s ! k) \<and>
           beliefs (agents s' ! k) = beliefs (agents s ! k) @ [arg] \<and>
           adaptability (agents s' ! k) =
             (if k = i1 then min 1.0 (adaptability (agents s ! k) + 0.1)
              else max 0.1 (adaptability (agents s ! k) - 0.1)) \<and>
           (adaptability (agents s' ! k) = adaptability (agents s ! k) \<longleftrightarrow>
              (k = i1 \<and> adaptability (agents s ! k) = 1.0) \<or>
              (k = i2 \<and> adaptability (agents s ! k) = 0.1))"
proof -
  from assms have c: "debate_cycle v encode cos_sim d s = Inr s'"
    by (rule run_debate_cycle_sampled)
  from sample2_Inr [OF assms(2)]
  have i: "i1 < length (agents s)" "i2 < length (agents s)" "i1 \<noteq> i2"
    by simp_all
  from c show ?thesis
  proof (rule debate_cycle_InrE)
    fix j1 j2 and arg1 arg2 :: string and sim :: real
    assume "sample2 (agents s) (sample_r1 d) (sample_r2 d) = Inr (j1, j2)"
    with assms(2) have j: "j1 = i1" "j2 = i2"
      by simp_all
    assume ags: "agents s' =
       (if sim > 0.7
        then (agents s)[j1 := (agents s ! j1)\<lparr>beliefs := beliefs (agents s ! j1) @ [arg2],
               adaptability := min 1.0 (adaptability (agents s ! j1) + 0.1)\<rparr>]
        else (agents s)[j2 := (agents s ! j2)\<lparr>beliefs := beliefs (agents s ! j2) @ [arg1],
               adaptability := max 0.1 (adaptability (agents s ! j2) - 0.1)\<rparr>])"
    show ?thesis
    proof (cases "sim > 0.7")
      case True
      with ags j have "agents s' = (agents s)[i1 := (agents s ! i1)\<lparr>beliefs := beliefs (agents s ! i1) @ [arg2],
               adaptability := min 1.0 (adaptability (agents s ! i1) + 0.1)\<rparr>]"
        by simp
      with i show ?thesis
        by (intro exI [of _ i1] exI [of _ arg2]) (auto simp: min_def)
    next
      case False
      with ags j have "agents s' = (agents s)[i2 := (agents s ! i2)\<lparr>beliefs := beliefs (agents s ! i2) @ [arg1],
               adaptability := max 0.1 (adaptability (agents s ! i2) - 0.1)\<rparr>]"
        by simp
      with i show ?thesis
        by (intro exI [of _ i2] exI [of _ arg1]) (auto simp: max_def)
    qed
  qed
qed

theorem one_agent_mutated_witness:
  "\<exists>s'. run_debate_cycle AiEngine example_encode (constant_similarity 0.5) example_draws example_engine
          = Inr s' \<and>
     sample2 (agents example_engine) (sample_r1 example_draws) (sample_r2 example_draws) = Inr (0, 7) \<and>
     agents s' ! 0 = agents example_engine ! 0 \<and>
     beliefs (agents s' ! 7) =
       beliefs (agents example_engine ! 7) @ [''Rationalist argues: consciousness is fundamental''] \<and>
     adaptability (agents s' ! 7) = 0.2"
proof -
  obtain s' where s': "run_debate_cycle AiEngine example_encode (constant_similarity 0.5)
      example_draws example_engine = Inr s'"
    by (simp add: example_cycle)
  from one_agent_mutated [OF s' example_sample] s' example_sample show ?thesis
    by (auto simp: example_cycle example_agents template_end_def)
qed

text \<open>
  The third cycle of the concrete run with similarity 0.5 completes and changes no
  adaptability at all: the agent it mutates is already at the lower bound 0.1.
\<close>

lemma clamped_reached:
  "run_cycles (run_debate_cycle AiEngine example_encode (constant_similarity 0.5))
      [example_draws, example_draws] example_engine = Inr clamped_engine"
  apply (subst example_engine_eq)
  apply (simp add: cycle_defs example_agents clamped_engine_def draw_defs)
  done

lemma clamped_cycle:
  "run_debate_cycle AiEngine example_encode (constant_similarity 0.5) example_draws clamped_engine =
     Inr (clamped_engine
       \<lparr>agents := (agents clamped_engine)
          [7 := (agents clamped_engine ! 7)
             \<lparr>beliefs := beliefs (agents clamped_engine ! 7) @
                [''Rationalist argues: consciousness is fundamental'']\<rparr>],
        debate_history := debate_history clamped_engine @
          [(''Rationalist argues: consciousness is fundamental'',
            ''Transhumanist counters: consciousness is emerging'')]\<rparr>)"
  by (simp add: cycle_defs example_agents clamped_engine_def draw_defs)

theorem one_adaptability_changes_counterexample:
  "run_cycles (run_debate_cycle AiEngine example_encode (constant_similarity 0.5))
      [example_draws, example_draws] example_engine = Inr clamped_engine \<and>
   sample2 (agents clamped_engine) (sample_r1 example_draws) (sample_r2 example_draws) = Inr (0, 7) \<and>
   map_sum id (map adaptability \<circ> agents)
     (run_debate_cycle AiEngine example_encode (constant_similarity 0.5) example_draws clamped_engine)
     = Inr (map adaptability (agents clamped_engine))"
proof -
  have "sample2 (agents clamped_engine) (sample_r1 example_draws) (sample_r2 example_draws) = Inr (0, 7)"
    by (simp add: clamped_engine_def example_agents sample2_def example_draws_def)
  moreover have "map_sum id (map adaptability \<circ> agents)
     (run_debate_cycle AiEngine example_encode (constant_similarity 0.5) example_draws clamped_engine)
     = Inr (map adaptability (agents clamped_engine))"
    unfolding clamped_cycle by (simp add: clamped_engine_def example_agents)
  ultimately show ?thesis
    using clamped_reached by simp
qed

subsection \<open>The graph\<close>

lemma length_alist_update:
  "length (AList.update k v al) = (if k \<in> fst ` set al then length al else Suc (length al))"
  by (induction al) auto

lemma add_edge_count:
  "number_of_edges (add_edge u v w g) =
     (if has_edge g u v then number_of_edges g else number_of_edges g + 1)"
  by (simp add: number_of_edges_def add_edge_def has_edge_def length_alist_update)

lemma add_edge_weight: "edge_weight (add_edge u v w g) u v = Some w"
  by (simp add: edge_weight_def add_edge_def AList.update_conv')

lemma add_edge_weight_sym: "edge_weight (add_edge u v w g) v u = Some w"
  by (simp add: edge_weight_def add_edge_def AList.update_conv' insert_commute)

lemma add_edge_has: "has_edge (add_edge u v w g) u v"
  by (simp add: has_edge_def add_edge_def AList.dom_update)

lemma add_edge_distinct:
  "distinct (map fst (edges g)) \<Longrightarrow> distinct (map fst (edges (add_edge u v w g)))"
  by (simp add: add_edge_def AList.distinct_update)

lemma debate_cycle_graph:
  assumes "debate_cycle v enc cs d s = Inr s'"
  shows "\<exists>arg1 arg2.
           debate_history s' = debate_history s @ [(arg1, arg2)] \<and>
           knowledge_graph s' = add_edge arg1 arg2 (cs (enc arg1) (enc arg2)) (knowledge_graph s)"
  using assms by (rule debate_cycle_InrE) simp

lemma run_debate_cycle_edges_le:
  assumes "run_debate_cycle v enc cs d s = Inr s'"
    and "number_of_edges (knowledge_graph s) \<le> length (debate_history s) \<and>
         distinct (map fst (edges (knowledge_graph s)))"
  shows "number_of_edges (knowledge_graph s') \<le> length (debate_history s') \<and>
         distinct (map fst (edges (knowledge_graph s')))"
proof -
  from run_debate_cycle_Inr [OF assms(1)] show ?thesis
  proof
    assume "debate_cycle v enc cs d s = Inr s'"
    from debate_cycle_graph [OF this] assms(2) show ?thesis
      by (auto simp: add_edge_count add_edge_distinct)
  next
    assume "v = AiEngineWorking \<and> length (agents s) < 2 \<and> s' = s"
    with assms(2) show ?thesis
      by simp
  qed
qed

lemma run_edges_le:
  assumes "run_cycles (run_debate_cycle v enc cs) ds (DebateEngine_init uuid4 rnd) = Inr s"
  shows "number_of_edges (knowledge_graph s) \<le> length (debate_history s) \<and>
         distinct (map fst (edges (knowledge_graph s)))"
proof (rule run_cycles_invariant [OF assms])
  show "number_of_edges (knowledge_graph (DebateEngine_init uuid4 rnd))
          \<le> length (debate_history (DebateEngine_init uuid4 rnd)) \<and>
        distinct (map fst (edges (knowledge_graph (DebateEngine_init uuid4 rnd))))"
    by (simp add: DebateEngine_init_def empty_graph_def number_of_edges_def)
next
  fix d and t t' :: DebateEngine
  assume "number_of_edges (knowledge_graph t) \<le> length (debate_history t) \<and>
          distinct (map fst (edges (knowledge_graph t)))"
    and "run_debate_cycle v enc cs d t = Inr t'"
  then show "number_of_edges (knowledge_graph t') \<le> length (debate_history t') \<and>
          distinct (map fst (edges (knowledge_graph t')))"
    using run_debate_cycle_edges_le by blast
qed

lemma run_agents_length:
  assumes "run_cycles (run_debate_cycle v enc cs) ds (DebateEngine_init uuid4 rnd) = Inr s"
  shows "length (agents s) = 8 \<and> map role (agents s) = roles"
  using run_from_init [of v enc cs ds uuid4 rnd] assms by auto

section \<open>One edge and one history entry per cycle\<close>

text \<open>
  C4. Let \<open>s\<close> be reached by a run from the initial engine; then the graph has at
  most as many edges as the history has entries. A further completed cycle appends
  exactly one pair \<open>(arg1, arg2)\<close> to the history and makes exactly one call
  \<^verbatim>\<open>add_edge(arg1, arg2, weight=similarity)\<close>. The number of edges stays when the edge
  was there and grows by one otherwise, the stored weight is the new similarity, no
  edge is stored twice, and the bound holds again. Inserting the same two strings once
  more with any weight \<open>w\<close> keeps the number of edges and stores \<open>w\<close>.
\<close>

theorem edge_per_history_entry:
  assumes "run_cycles (run_debate_cycle v encode cos_sim) ds (DebateEngine_init uuid4 rnd) = Inr s"
    and "run_debate_cycle v encode cos_sim d s = Inr s'"
  shows "number_of_edges (knowledge_graph s) \<le> length (debate_history s) \<and>
         (\<exists>arg1 arg2.
            debate_history s' = debate_history s @ [(arg1, arg2)] \<and>
            knowledge_graph s' =
              add_edge arg1 arg2 (cos_sim (encode arg1) (encode arg2)) (knowledge_graph s) \<and>
            number_of_edges (knowledge_graph s') =
              (if has_edge (knowledge_graph s) arg1 arg2 then number_of_edges (knowledge_graph s)
               else number_of_edges (knowledge_graph s) + 1) \<and>
            edge_weight (knowledge_graph s') arg1 arg2 = Some (cos_sim (encode arg1) (encode arg2)) \<and>
            (\<forall>w. number_of_edges (add_edge arg1 arg2 w (knowledge_graph s'))
                   = number_of_edges (knowledge_graph s') \<and>
                 edge_weight (add_edge arg1 arg2 w (knowledge_graph s')) arg1 arg2 = Some w)) \<and>
         distinct (map fst (edges (knowledge_graph s'))) \<and>
         number_of_edges (knowledge_graph s') \<le> length (debate_history s')"
proof -
  note inv = run_edges_le [OF assms(1)]
  from run_agents_length [OF assms(1)] have "\<not> length (agents s) < 2"
    by simp
  with run_debate_cycle_Inr [OF assms(2)] have "debate_cycle v encode cos_sim d s = Inr s'"
    by blast
  from debate_cycle_graph [OF this] obtain arg1 arg2 where
    h: "debate_history s' = debate_history s @ [(arg1, arg2)]" and
    g: "knowledge_graph s' = add_edge arg1 arg2 (cos_sim (encode arg1) (encode arg2)) (knowledge_graph s)"
    by blast
  have "number_of_edges (knowledge_graph s') =
              (if has_edge (knowledge_graph s) arg1 arg2 then number_of_edges (knowledge_graph s)
               else number_of_edges (knowledge_graph s) + 1)"
    unfolding g by (rule add_edge_count)
  moreover have "edge_weight (knowledge_graph s') arg1 arg2 = Some (cos_sim (encode arg1) (encode arg2))"
    unfolding g by (rule add_edge_weight)
  moreover have "\<forall>w. number_of_edges (add_edge arg1 arg2 w (knowledge_graph s'))
                   = number_of_edges (knowledge_graph s') \<and>
                 edge_weight (add_edge arg1 arg2 w (knowledge_graph s')) arg1 arg2 = Some w"
    unfolding g by (simp add: add_edge_count add_edge_has add_edge_weight)
  moreover note h g inv run_debate_cycle_edges_le [OF assms(2) inv]
  ultimately show ?thesis
    by blast
qed

theorem edge_per_history_entry_witness:
  "\<exists>s'. run_cycles (run_debate_cycle AiEngine example_encode (constant_similarity 0.5))
      [example_draws, example_draws] example_engine = Inr clamped_engine \<and>
    run_debate_cycle AiEngine example_encode (constant_similarity 0.5) example_draws clamped_engine
      = Inr s' \<and>
    number_of_edges (knowledge_graph clamped_engine) = 1 \<and>
    length (debate_history clamped_engine) = 2 \<and>
    number_of_edges (knowledge_graph s') = 1 \<and>
    length (debate_history s') = 3 \<and>
    edge_weight (knowledge_graph s') ''Rationalist argues: consciousness is fundamental''
      ''Transhumanist counters: consciousness is emerging'' = Some 0.5"
proof -
  note r = clamped_reached [unfolded example_engine_def]
  note c = clamped_cycle
  from edge_per_history_entry [OF r c] clamped_reached c show ?thesis
    by (simp add: clamped_engine_def number_of_edges_def edge_weight_def)
qed

subsection \<open>The initial agents\<close>




section \<open>Agent pool initialization\<close>




subsection \<open>The two templates\<close>

lemma debate_cycle_arguments:
  assumes "debate_cycle v enc cs d s = Inr s'"
    and "sample2 (agents s) (sample_r1 d) (sample_r2 d) = Inr (i1, i2)"
  shows "\<exists>topic st1 st2.
           choice topics (topic_r d) = Inr topic \<and>
           choice stances1 (stance1_r d) = Inr st1 \<and>
           choice stances2 (stance2_r d) = Inr st2 \<and>
           debate_history s' = debate_history s @
             [(role (agents s ! i1) @ '' argues: '' @ topic @ '' is '' @ st1 @ template_end v,
               role (agents s ! i2) @ '' counters: '' @ topic @ '' is '' @ st2 @ template_end v)]"
  using assms(1)
proof (rule debate_cycle_InrE)
  fix j1 j2 topic st1 st2 arg1 arg2
  assume "sample2 (agents s) (sample_r1 d) (sample_r2 d) = Inr (j1, j2)"
  with assms(2) have "j1 = i1" "j2 = i2"
    by simp_all
  moreover assume "choice topics (topic_r d) = Inr topic"
    "choice stances1 (stance1_r d) = Inr st1"
    "choice stances2 (stance2_r d) = Inr st2"
    "arg1 = role (agents s ! j1) @ '' argues: '' @ topic @ '' is '' @ st1 @ template_end v"
    "arg2 = role (agents s ! j2) @ '' counters: '' @ topic @ '' is '' @ st2 @ template_end v"
    "debate_history s' = debate_history s @ [(arg1, arg2)]"
  ultimately show ?thesis
    by simp
qed

section \<open>The argument templates\<close>

text \<open>
  C7, as the code has it. In a completed cycle that sampled the agents at positions
  \<open>i1\<close> and \<open>i2\<close>, the pair appended to the history is: the role of agent 1,
  \<open>argues:\<close>, a topic of the fixed list, \<open>is\<close> and a stance of the first list;
  and the role of agent 2, \<open>counters:\<close>, the same topic, \<open>is\<close> and a stance of the
  second list; the parts are separated by single spaces. In \<^verbatim>\<open>ai_engine.py\<close> nothing
  follows; in \<^verbatim>\<open>ai_engine.working.py\<close> both strings end with a full stop.
\<close>

theorem argument_templates:
  assumes "run_debate_cycle v encode cos_sim d s = Inr s'"
    and "sample2 (agents s) (sample_r1 d) (sample_r2 d) = Inr (i1, i2)"
  shows "\<exists>topic st1 st2.
           topic \<in> set topics \<and> st1 \<in> set stances1 \<and> st2 \<in> set stances2 \<and>
           last (debate_history s') =
             (role (agents s ! i1) @ '' argues: '' @ topic @ '' is '' @ st1 @
                (case v of AiEngine \<Rightarrow> [] | AiEngineWorking \<Rightarrow> ''.''),
              role (agents s ! i2) @ '' counters: '' @ topic @ '' is '' @ st2 @
                (case v of AiEngine \<Rightarrow> [] | AiEngineWorking \<Rightarrow> ''.''))"
proof -
  from assms have "debate_cycle v encode cos_sim d s = Inr s'"
    by (rule run_debate_cycle_sampled)
  from debate_cycle_arguments [OF this assms(2)] obtain topic st1 st2 where
    "choice topics (topic_r d) = Inr topic"
    "choice stances1 (stance1_r d) = Inr st1"
    "choice stances2 (stance2_r d) = Inr st2"
    "debate_history s' = debate_history s @
             [(role (agents s ! i1) @ '' argues: '' @ topic @ '' is '' @ st1 @ template_end v,
               role (agents s ! i2) @ '' counters: '' @ topic @ '' is '' @ st2 @ template_end v)]"
    by blast
  then have "topic \<in> set topics \<and> st1 \<in> set stances1 \<and> st2 \<in> set stances2 \<and>
           last (debate_history s') =
             (role (agents s ! i1) @ '' argues: '' @ topic @ '' is '' @ st1 @
                (case v of AiEngine \<Rightarrow> [] | AiEngineWorking \<Rightarrow> ''.''),
              role (agents s ! i2) @ '' counters: '' @ topic @ '' is '' @ st2 @
                (case v of AiEngine \<Rightarrow> [] | AiEngineWorking \<Rightarrow> ''.''))"
    by (simp add: choice_mem template_end_def)
  then show ?thesis
    by blast
qed

theorem argument_templates_witness:
  "\<exists>s'. run_debate_cycle AiEngine example_encode (constant_similarity 0.5) example_draws example_engine
          = Inr s' \<and>
     sample2 (agents example_engine) (sample_r1 example_draws) (sample_r2 example_draws) = Inr (0, 7) \<and>
     last (debate_history s') =
       (''Rationalist argues: consciousness is fundamental'',
        ''Transhumanist counters: consciousness is emerging'')"
proof -
  obtain s' where s': "run_debate_cycle AiEngine example_encode (constant_similarity 0.5)
      example_draws example_engine = Inr s'"
    by (simp add: example_cycle)
  from argument_templates [OF s' example_sample] s' example_sample show ?thesis
    by (auto simp: example_cycle template_end_def)
qed

text \<open>
  In \<^verbatim>\<open>ai_engine.working.py\<close> the first argument of the concrete cycle ends with a full
  stop, so it is not the role, the connective, the topic, the copula and any of the
  three stance words alone.
\<close>

theorem full_stop_counterexample:
  "map_sum id debate_history
     (run_debate_cycle AiEngineWorking example_encode (constant_similarity 0.5) example_draws example_engine)
     = Inr [(''Rationalist argues: consciousness is fundamental.'',
             ''Transhumanist counters: consciousness is emerging.'')] \<and>
   ''Rationalist argues: consciousness is fundamental.'' \<noteq>
      ''Rationalist'' @ '' argues: '' @ ''consciousness'' @ '' is '' @ ''fundamental'' \<and>
   ''Rationalist argues: consciousness is fundamental.'' \<noteq>
      ''Rationalist'' @ '' argues: '' @ ''consciousness'' @ '' is '' @ ''illusory'' \<and>
   ''Rationalist argues: consciousness is fundamental.'' \<noteq>
      ''Rationalist'' @ '' argues: '' @ ''consciousness'' @ '' is '' @ ''dangerous'' \<and>
   role (agents example_engine ! 0) = ''Rationalist'' \<and>
   choice topics (topic_r example_draws) = Inr ''consciousness''"
proof -
  have "map_sum id debate_history
     (run_debate_cycle AiEngineWorking example_encode (constant_similarity 0.5) example_draws example_engine)
     = Inr [(''Rationalist argues: consciousness is fundamental.'',
             ''Transhumanist counters: consciousness is emerging.'')]"
    by (simp add: example_cycle template_end_def)
  moreover have "role (agents example_engine ! 0) = ''Rationalist''"
    by (simp add: example_agents)
  moreover have "choice topics (topic_r example_draws) = Inr ''consciousness''"
    by (simp add: choice_def topics_def example_draws_def)
  ultimately show ?thesis
    by simp
qed

subsection \<open>The two arguments of a cycle differ\<close>

lemma stance_last_differs:
  assumes "st1 \<in> set stances1" and "st2 \<in> set stances2"
  shows "st1 \<noteq> [] \<and> st2 \<noteq> [] \<and> last st1 \<noteq> last st2"
  using assms by (auto simp: stances1_def stances2_def)

lemma arguments_differ:
  assumes "st1 \<in> set stances1" and "st2 \<in> set stances2"
  shows "r1 @ '' argues: '' @ t1 @ '' is '' @ st1 @ e \<noteq> r2 @ '' counters: '' @ t2 @ '' is '' @ st2 @ e"
proof
  assume "r1 @ '' argues: '' @ t1 @ '' is '' @ st1 @ e = r2 @ '' counters: '' @ t2 @ '' is '' @ st2 @ e"
  then have "(r1 @ '' argues: '' @ t1 @ '' is '' @ st1) @ e = (r2 @ '' counters: '' @ t2 @ '' is '' @ st2) @ e"
    by simp
  then have eq: "r1 @ '' argues: '' @ t1 @ '' is '' @ st1 = r2 @ '' counters: '' @ t2 @ '' is '' @ st2"
    by (simp only: append_same_eq)
  from stance_last_differs [OF assms] have ne: "st1 \<noteq> []" "st2 \<noteq> []" and l: "last st1 \<noteq> last st2"
    by simp_all
  from ne have "last (r1 @ '' argues: '' @ t1 @ '' is '' @ st1) = last st1"
    "last (r2 @ '' counters: '' @ t2 @ '' is '' @ st2) = last st2"
    by simp_all
  with eq l show False
    by simp
qed

lemma debate_cycle_distinct_arguments:
  assumes "debate_cycle v enc cs d s = Inr s'"
  shows "\<exists>arg1 arg2. arg1 \<noteq> arg2 \<and>
           debate_history s' = debate_history s @ [(arg1, arg2)] \<and>
           knowledge_graph s' = add_edge arg1 arg2 (cs (enc arg1) (enc arg2)) (knowledge_graph s)"
  using assms
proof (rule debate_cycle_InrE)
  fix i1 i2 topic st1 st2 arg1 arg2 sim
  assume "choice stances1 (stance1_r d) = Inr st1" "choice stances2 (stance2_r d) = Inr st2"
  then have "st1 \<in> set stances1" "st2 \<in> set stances2"
    by (simp_all add: choice_mem)
  then have "role (agents s ! i1) @ '' argues: '' @ topic @ '' is '' @ st1 @ template_end v
      \<noteq> role (agents s ! i2) @ '' counters: '' @ topic @ '' is '' @ st2 @ template_end v"
    by (rule arguments_differ)
  moreover assume "arg1 = role (agents s ! i1) @ '' argues: '' @ topic @ '' is '' @ st1 @ template_end v"
    "arg2 = role (agents s ! i2) @ '' counters: '' @ topic @ '' is '' @ st2 @ template_end v"
    "sim = cs (enc arg1) (enc arg2)"
    "debate_history s' = debate_history s @ [(arg1, arg2)]"
    "knowledge_graph s' = add_edge arg1 arg2 sim (knowledge_graph s)"
  ultimately show ?thesis
    by blast
qed

lemma has_edge_add_edge:
  "has_edge (add_edge a b w g) u u' \<longleftrightarrow> {u, u'} = {a, b} \<or> has_edge g u u'"
  by (auto simp: has_edge_def add_edge_def AList.dom_update)

lemma run_debate_cycle_no_loop:
  assumes "run_debate_cycle v enc cs d s = Inr s'"
    and "(\<forall>e\<in>set (debate_history s). fst e \<noteq> snd e) \<and> (\<forall>u. \<not> has_edge (knowledge_graph s) u u)"
  shows "(\<forall>e\<in>set (debate_history s'). fst e \<noteq> snd e) \<and> (\<forall>u. \<not> has_edge (knowledge_graph s') u u)"
proof -
  from run_debate_cycle_Inr [OF assms(1)] show ?thesis
  proof
    assume "debate_cycle v enc cs d s = Inr s'"
    from debate_cycle_distinct_arguments [OF this] obtain arg1 arg2 where
      ne: "arg1 \<noteq> arg2" and h: "debate_history s' = debate_history s @ [(arg1, arg2)]" and
      g: "knowledge_graph s' = add_edge arg1 arg2 (cs (enc arg1) (enc arg2)) (knowledge_graph s)"
      by blast
    have "{u, u} \<noteq> {arg1, arg2}" for u
      using ne by (auto simp: doubleton_eq_iff)
    with assms(2) h g show ?thesis
      by (auto simp: has_edge_add_edge)
  next
    assume "v = AiEngineWorking \<and> length (agents s) < 2 \<and> s' = s"
    with assms(2) show ?thesis
      by simp
  qed
qed

lemma run_history_length:
  assumes "run_cycles (run_debate_cycle v enc cs) ds s = Inr s'" and "2 \<le> length (agents s)"
  shows "length (debate_history s') = length (debate_history s) + length ds"
  using assms
proof (induction ds arbitrary: s)
  case Nil
  then show ?case by simp
next
  case (Cons d ds)
  from Cons.prems(1) obtain s1 where s1: "run_debate_cycle v enc cs d s = Inr s1"
    and rest: "run_cycles (run_debate_cycle v enc cs) ds s1 = Inr s'"
    by (auto split: sum.splits)
  from run_debate_cycle_Inr [OF s1] Cons.prems(2) have c: "debate_cycle v enc cs d s = Inr s1"
    by auto
  from debate_cycle_graph [OF c] have "length (debate_history s1) = length (debate_history s) + 1"
    by auto
  moreover from debate_cycle_length [OF c] Cons.prems(2) have "2 \<le> length (agents s1)"
    by simp
  ultimately show ?case
    using Cons.IH [OF rest] by simp
qed

section \<open>No self-loop\<close>

text \<open>
  C9. After any run from the initial engine, the history has one entry per cycle,
  every entry of the history is a pair of two different strings, and the knowledge graph
  has no edge from a node to itself. The two arguments of a cycle differ whatever the
  roles are: the stance words of the two sides end with different letters.
\<close>

theorem arguments_distinct:
  assumes "run_cycles (run_debate_cycle v encode cos_sim) ds (DebateEngine_init uuid4 rnd) = Inr s"
  shows "length (debate_history s) = length ds \<and>
         (\<forall>e\<in>set (debate_history s). fst e \<noteq> snd e) \<and>
         (\<forall>u. \<not> has_edge (knowledge_graph s) u u)"
proof -
  let ?P = "\<lambda>s. (\<forall>e\<in>set (debate_history s). fst e \<noteq> snd e) \<and> (\<forall>u. \<not> has_edge (knowledge_graph s) u u)"
  have "?P s"
  proof (rule run_cycles_invariant [where P = ?P, OF assms])
    show "?P (DebateEngine_init uuid4 rnd)"
      by (simp add: DebateEngine_init_def empty_graph_def has_edge_def)
  next
    fix d and t t' :: DebateEngine
    assume "?P t" and "run_debate_cycle v encode cos_sim d t = Inr t'"
    then show "?P t'"
      using run_debate_cycle_no_loop [of v encode cos_sim d t t'] by blast
  qed
  moreover have "2 \<le> length (agents (DebateEngine_init uuid4 rnd))"
    by (simp add: init_length)
  from run_history_length [OF assms this] have "length (debate_history s) = length ds"
    by (simp add: DebateEngine_init_def)
  ultimately show ?thesis
    by blast
qed

theorem arguments_distinct_witness:
  "run_cycles (run_debate_cycle AiEngine example_encode (constant_similarity 0.5))
      [example_draws, example_draws] example_engine = Inr clamped_engine \<and>
   debate_history clamped_engine =
     [(''Rationalist argues: consciousness is fundamental'',
       ''Transhumanist counters: consciousness is emerging''),
      (''Rationalist argues: consciousness is fundamental'',
       ''Transhumanist counters: consciousness is emerging'')] \<and>
   map fst (edges (knowledge_graph clamped_engine)) =
     [{''Rationalist argues: consciousness is fundamental'',
       ''Transhumanist counters: consciousness is emerging''}] \<and>
   ''Rationalist argues: consciousness is fundamental'' \<noteq>
       ''Transhumanist counters: consciousness is emerging''"
proof -
  note r = clamped_reached [unfolded example_engine_def]
  from arguments_distinct [OF r] clamped_reached show ?thesis
    by (simp add: clamped_engine_def)
qed

subsection \<open>What a cycle computes\<close>

lemma debate_cycle_outputs:
  assumes "sample2 (agents s) (sample_r1 d) (sample_r2 d) = Inr (i1, i2)"
  shows "\<exists>s' topic st1 st2 arg1 arg2.
           debate_cycle v enc cs d s = Inr s' \<and>
           choice topics (topic_r d) = Inr topic \<and>
           choice stances1 (stance1_r d) = Inr st1 \<and>
           choice stances2 (stance2_r d) = Inr st2 \<and>
           arg1 = role (agents s ! i1) @ '' argues: '' @ topic @ '' is '' @ st1 @ template_end v \<and>
           arg2 = role (agents s ! i2) @ '' counters: '' @ topic @ '' is '' @ st2 @ template_end v \<and>
           last (debate_history s') = (arg1, arg2) \<and>
           edge_weight (knowledge_graph s') arg1 arg2 = Some (cs (enc arg1) (enc arg2))"
proof -
  from sample2_Inr [OF assms] have "2 \<le> length (agents s)"
    by linarith
  from debate_cycle_total [OF this] obtain s' where s': "debate_cycle v enc cs d s = Inr s'"
    by blast
  from debate_cycle_arguments [OF s' assms] obtain topic st1 st2 where
    c: "choice topics (topic_r d) = Inr topic"
      "choice stances1 (stance1_r d) = Inr st1"
      "choice stances2 (stance2_r d) = Inr st2" and
    h: "debate_history s' = debate_history s @
             [(role (agents s ! i1) @ '' argues: '' @ topic @ '' is '' @ st1 @ template_end v,
               role (agents s ! i2) @ '' counters: '' @ topic @ '' is '' @ st2 @ template_end v)]"
    by blast
  from debate_cycle_graph [OF s'] obtain a b where
    h': "debate_history s' = debate_history s @ [(a, b)]" and
    g: "knowledge_graph s' = add_edge a b (cs (enc a) (enc b)) (knowledge_graph s)"
    by blast
  from h h' have ab: "a = role (agents s ! i1) @ '' argues: '' @ topic @ '' is '' @ st1 @ template_end v"
    "b = role (agents s ! i2) @ '' counters: '' @ topic @ '' is '' @ st2 @ template_end v"
    by simp_all
  have "edge_weight (knowledge_graph s') a b = Some (cs (enc a) (enc b))"
    unfolding g by (rule add_edge_weight)
  with s' c h' ab show ?thesis
    by simp
qed

section \<open>The arguments depend on the roles only\<close>

text \<open>
  C10. Let two engines have agents with the same roles, position by position, and any
  beliefs, adaptabilities, graphs and histories. If one of them samples the positions
  \<open>i1\<close> and \<open>i2\<close> under given draws, then so does the other, both complete the
  cycle under the same draws and the same embedding model, both append the same pair of
  arguments to their histories, and both store the same similarity as the weight of
  the edge between these arguments.
\<close>

theorem arguments_depend_on_roles_only:
  assumes "map role (agents s) = map role (agents t)"
    and "sample2 (agents s) (sample_r1 d) (sample_r2 d) = Inr (i1, i2)"
  shows "\<exists>s' t' arg1 arg2.
           run_debate_cycle v encode cos_sim d s = Inr s' \<and>
           run_debate_cycle v encode cos_sim d t = Inr t' \<and>
           sample2 (agents t) (sample_r1 d) (sample_r2 d) = Inr (i1, i2) \<and>
           last (debate_history s') = (arg1, arg2) \<and>
           last (debate_history t') = (arg1, arg2) \<and>
           edge_weight (knowledge_graph s') arg1 arg2 = Some (cos_sim (encode arg1) (encode arg2)) \<and>
           edge_weight (knowledge_graph t') arg1 arg2 = Some (cos_sim (encode arg1) (encode arg2))"
proof -
  from assms(1) have len: "length (agents s) = length (agents t)"
    using map_eq_imp_length_eq by blast
  with assms(2) have st: "sample2 (agents t) (sample_r1 d) (sample_r2 d) = Inr (i1, i2)"
    by (simp add: sample2_def)
  from sample2_Inr [OF assms(2)] have i: "i1 < length (agents s)" "i2 < length (agents s)"
    by simp_all
  have r: "role (agents s ! i1) = role (agents t ! i1)" "role (agents s ! i2) = role (agents t ! i2)"
    using assms(1) i len by (metis nth_map)+
  from i have two: "\<not> length (agents s) < 2" "\<not> length (agents t) < 2"
    using sample2_Inr [OF assms(2)] len by linarith+
  from debate_cycle_outputs [OF assms(2), of v encode cos_sim] obtain s' topic st1 st2 arg1 arg2 where
    s: "debate_cycle v encode cos_sim d s = Inr s'"
      "choice topics (topic_r d) = Inr topic"
      "choice stances1 (stance1_r d) = Inr st1"
      "choice stances2 (stance2_r d) = Inr st2"
      "arg1 = role (agents s ! i1) @ '' argues: '' @ topic @ '' is '' @ st1 @ template_end v"
      "arg2 = role (agents s ! i2) @ '' counters: '' @ topic @ '' is '' @ st2 @ template_end v"
      "last (debate_history s') = (arg1, arg2)"
      "edge_weight (knowledge_graph s') arg1 arg2 = Some (cos_sim (encode arg1) (encode arg2))"
    by blast
  from debate_cycle_outputs [OF st, of v encode cos_sim] obtain t' topic' st1' st2' arg1' arg2' where
    t: "debate_cycle v encode cos_sim d t = Inr t'"
      "choice topics (topic_r d) = Inr topic'"
      "choice stances1 (stance1_r d) = Inr st1'"
      "choice stances2 (stance2_r d) = Inr st2'"
      "arg1' = role (agents t ! i1) @ '' argues: '' @ topic' @ '' is '' @ st1' @ template_end v"
      "arg2' = role (agents t ! i2) @ '' counters: '' @ topic' @ '' is '' @ st2' @ template_end v"
      "last (debate_history t') = (arg1', arg2')"
      "edge_weight (knowledge_graph t') arg1' arg2' = Some (cos_sim (encode arg1') (encode arg2'))"
    by blast
  from s(2-4) t(2-4) have "topic' = topic" "st1' = st1" "st2' = st2"
    by simp_all
  with s(5,6) t(5,6) r have same: "arg1' = arg1" "arg2' = arg2"
    by simp_all
  have "run_debate_cycle v encode cos_sim d s = Inr s'" "run_debate_cycle v encode cos_sim d t = Inr t'"
    using s(1) t(1) two by (cases v; simp add: run_debate_cycle_def)+
  with st s(7,8) t(7,8) same show ?thesis
    by blast
qed

theorem arguments_depend_on_roles_only_witness:
  "\<exists>s' t'. map role (agents example_engine) = map role (agents clamped_engine) \<and>
     sample2 (agents example_engine) (sample_r1 example_draws) (sample_r2 example_draws) = Inr (0, 7) \<and>
     map adaptability (agents example_engine) \<noteq> map adaptability (agents clamped_engine) \<and>
     map beliefs (agents example_engine) \<noteq> map beliefs (agents clamped_engine) \<and>
     run_debate_cycle AiEngine example_encode (constant_similarity 0.5) example_draws example_engine
       = Inr s' \<and>
     run_debate_cycle AiEngine example_encode (constant_similarity 0.5) example_draws clamped_engine
       = Inr t' \<and>
     last (debate_history s') = last (debate_history t') \<and>
     last (debate_history s') = (''Rationalist argues: consciousness is fundamental'',
        ''Transhumanist counters: consciousness is emerging'')"
proof -
  have r: "map role (agents example_engine) = map role (agents clamped_engine)"
    by (simp add: clamped_engine_def example_agents)
  have d: "map adaptability (agents example_engine) \<noteq> map adaptability (agents clamped_engine)"
    "map beliefs (agents example_engine) \<noteq> map beliefs (agents clamped_engine)"
    by (simp_all add: clamped_engine_def example_agents)
  from arguments_depend_on_roles_only [OF r example_sample, of AiEngine example_encode
      "constant_similarity 0.5"]
  obtain s' t' where
    "run_debate_cycle AiEngine example_encode (constant_similarity 0.5) example_draws example_engine
       = Inr s'"
    "run_debate_cycle AiEngine example_encode (constant_similarity 0.5) example_draws clamped_engine
       = Inr t'"
    "last (debate_history s') = last (debate_history t')"
    by auto
  moreover from this(1) have "last (debate_history s') = (''Rationalist argues: consciousness is fundamental'',
        ''Transhumanist counters: consciousness is emerging'')"
    by (auto simp: example_cycle template_end_def)
  ultimately show ?thesis
    using r d example_sample by blast
qed

subsection \<open>Writing and reading the history file\<close>

lemma split_lines_from_line:
  assumes "newline \<notin> set a"
  shows "split_lines_from cur (a @ newline # rest) = (cur @ a) # split_lines_from [] rest"
  using assms by (induction a arbitrary: cur) auto

lemma split_lines_dump:
  assumes "\<forall>e\<in>set h. newline \<notin> set (fst e) \<and> newline \<notin> set (snd e)"
  shows "split_lines_from [] (dump_history h) = concat (map (\<lambda>e. [fst e, snd e, []]) h) @ [[]]"
  using assms
proof (induction h)
  case Nil
  then show ?case by simp
next
  case (Cons e es)
  then have a: "newline \<notin> set (fst e)" and b: "newline \<notin> set (snd e)"
    and IH: "split_lines_from [] (dump_history es) = concat (map (\<lambda>e. [fst e, snd e, []]) es) @ [[]]"
    by simp_all
  have "dump_history (e # es) = fst e @ newline # (snd e @ newline # ([] @ newline # dump_history es))"
    by simp
  then have "split_lines_from [] (dump_history (e # es)) =
      fst e # snd e # [] # split_lines_from [] (dump_history es)"
    using split_lines_from_line [OF a] split_lines_from_line [OF b]
      split_lines_from_line [of "[]"]
    by simp
  with IH show ?case
    by simp
qed

lemma blocks_from_entries:
  assumes "\<forall>e\<in>set h. fst e \<noteq> [] \<and> snd e \<noteq> []"
  shows "blocks_from [] (concat (map (\<lambda>e. [fst e, snd e, []]) h) @ [[]]) = map (\<lambda>e. [fst e, snd e]) h"
  using assms by (induction h) simp_all

lemma those_block_entry: "those (map block_entry (map (\<lambda>e. [fst e, snd e]) h)) = Some h"
  by (induction h) simp_all

lemma parse_dump:
  assumes "\<forall>e\<in>set h. line_ok (fst e) \<and> line_ok (snd e)"
  shows "parse_history (dump_history h) = Some h"
proof -
  from assms have "\<forall>e\<in>set h. newline \<notin> set (fst e) \<and> newline \<notin> set (snd e)"
    and "\<forall>e\<in>set h. fst e \<noteq> [] \<and> snd e \<noteq> []"
    by (simp_all add: line_ok_def)
  then have "blocks_from [] (split_lines (dump_history h)) = map (\<lambda>e. [fst e, snd e]) h"
    by (simp add: split_lines_def split_lines_dump blocks_from_entries)
  then show ?thesis
    unfolding parse_history_def by (simp only: those_block_entry)
qed


lemma fixed_words_ok:
  "\<forall>r\<in>set roles. newline \<notin> set r"
  "\<forall>t\<in>set topics. newline \<notin> set t"
  "\<forall>a\<in>set stances1. newline \<notin> set a"
  "\<forall>a\<in>set stances2. newline \<notin> set a"
  by (simp_all add: roles_def topics_def stances1_def stances2_def newline_def)

lemma template_end_ok: "newline \<notin> set (template_end v)"
  by (cases v) (simp_all add: newline_def template_end_def)

lemma templates_ok:
  assumes "r1 \<in> set roles" "r2 \<in> set roles" "t \<in> set topics"
    "st1 \<in> set stances1" "st2 \<in> set stances2"
  shows "line_ok (r1 @ '' argues: '' @ t @ '' is '' @ st1 @ template_end v) \<and>
         line_ok (r2 @ '' counters: '' @ t @ '' is '' @ st2 @ template_end v)"
proof -
  have "newline \<notin> set '' argues: ''" "newline \<notin> set '' counters: ''" "newline \<notin> set '' is ''"
    by (simp_all add: newline_def)
  with assms fixed_words_ok template_end_ok [of v] show ?thesis
    unfolding line_ok_def by (simp only: set_append Un_iff) blast
qed

lemma run_debate_cycle_lines_ok:
  assumes "run_debate_cycle v enc cs d s = Inr s'"
    and "map role (agents s) = roles"
    and "\<forall>e\<in>set (debate_history s). line_ok (fst e) \<and> line_ok (snd e)"
  shows "\<forall>e\<in>set (debate_history s'). line_ok (fst e) \<and> line_ok (snd e)"
proof -
  from run_debate_cycle_Inr [OF assms(1)] show ?thesis
  proof
    assume c: "debate_cycle v enc cs d s = Inr s'"
    then obtain i1 i2 where sm: "sample2 (agents s) (sample_r1 d) (sample_r2 d) = Inr (i1, i2)"
      by (rule debate_cycle_InrE)
    from sample2_Inr [OF sm] have i: "i1 < length (agents s)" "i2 < length (agents s)"
      by simp_all
    have "role (agents s ! k) \<in> set roles" if "k < length (agents s)" for k
    proof -
      from that have "role (agents s ! k) \<in> set (map role (agents s))"
        by simp
      then show ?thesis
        by (simp only: assms(2))
    qed
    with i have r: "role (agents s ! i1) \<in> set roles" "role (agents s ! i2) \<in> set roles"
      by simp_all
    from debate_cycle_arguments [OF c sm] obtain topic st1 st2 where
      "choice topics (topic_r d) = Inr topic"
      "choice stances1 (stance1_r d) = Inr st1"
      "choice stances2 (stance2_r d) = Inr st2" and
      h: "debate_history s' = debate_history s @
             [(role (agents s ! i1) @ '' argues: '' @ topic @ '' is '' @ st1 @ template_end v,
               role (agents s ! i2) @ '' counters: '' @ topic @ '' is '' @ st2 @ template_end v)]"
      by blast
    then have "topic \<in> set topics" "st1 \<in> set stances1" "st2 \<in> set stances2"
      by (simp_all add: choice_mem)
    from templates_ok [OF r this, of v] assms(3) show ?thesis
      unfolding h by simp
  next
    assume "v = AiEngineWorking \<and> length (agents s) < 2 \<and> s' = s"
    with assms(3) show ?thesis
      by simp
  qed
qed

lemma run_lines_ok:
  assumes "run_cycles (run_debate_cycle v enc cs) ds (DebateEngine_init uuid4 rnd) = Inr s"
  shows "\<forall>e\<in>set (debate_history s). line_ok (fst e) \<and> line_ok (snd e)"
proof -
  let ?P = "\<lambda>s. map role (agents s) = roles \<and>
    (\<forall>e\<in>set (debate_history s). line_ok (fst e) \<and> line_ok (snd e))"
  have "?P s"
  proof (rule run_cycles_invariant [where P = ?P, OF assms])
    show "?P (DebateEngine_init uuid4 rnd)"
      by (simp add: init_roles) (simp add: DebateEngine_init_def)
  next
    fix d and t t' :: DebateEngine
    assume "?P t" and "run_debate_cycle v enc cs d t = Inr t'"
    then show "?P t'"
      using run_debate_cycle_lines_ok [of v enc cs d t t'] run_debate_cycle_roles [of v enc cs d t t']
      by simp
  qed
  then show ?thesis
    by simp
qed

section \<open>The history file round trip\<close>

text \<open>
  C8. For the history of any run from the initial engine, writing it with the dump loop
  of the scripts and reading the text back (two non-blank lines per block, blocks
  separated by blank lines) gives exactly the history again. The reader is modelled
  from the spec.
\<close>

theorem history_round_trip:
  assumes "run_cycles (run_debate_cycle v encode cos_sim) ds (DebateEngine_init uuid4 rnd) = Inr s"
  shows "parse_history (dump_history (debate_history s)) = Some (debate_history s)"
  using run_lines_ok [OF assms] by (rule parse_dump)

theorem history_round_trip_witness:
  "run_cycles (run_debate_cycle AiEngine example_encode (constant_similarity 0.5))
      [example_draws, example_draws] example_engine = Inr clamped_engine \<and>
   parse_history (dump_history (debate_history clamped_engine)) =
     Some [(''Rationalist argues: consciousness is fundamental'',
            ''Transhumanist counters: consciousness is emerging''),
           (''Rationalist argues: consciousness is fundamental'',
            ''Transhumanist counters: consciousness is emerging'')]"
proof -
  note r = clamped_reached [unfolded example_engine_def]
  from history_round_trip [OF r] clamped_reached show ?thesis
    by (simp add: clamped_engine_def)
qed

end
